theory Spec2Isabelle
  imports Main "HOL-Library.Word" "HOL-Library.Sublist"
begin

section \<open>Monome Grid serial logger: byte formatter, message decoder, read loop\<close>

text \<open>
  A shallow embedding of \<^verbatim>\<open>src/cli/monome_logger.py\<close>. A \<^verbatim>\<open>bytes\<close> object is a list
  of 8-bit words, a Python \<^verbatim>\<open>str\<close> is a \<open>string\<close>, the integers obtained by indexing
  a \<^verbatim>\<open>bytes\<close> object are natural numbers below 256 (\<open>unat\<close> of the byte), and a raised
  exception is the \<open>Inl\<close> branch of a sum.
\<close>

type_synonym byte = "8 word"

subsection \<open>Python primitives used by the program\<close>

datatype error = IndexError

definition bind_exc :: "error + 'a \<Rightarrow> ('a \<Rightarrow> error + 'b) \<Rightarrow> error + 'b" where
  "bind_exc m f = (case m of Inl e \<Rightarrow> Inl e | Inr x \<Rightarrow> f x)"

text \<open>\<^verbatim>\<open>data[i]\<close> for a literal index \<open>i \<ge> 0\<close>: raises IndexError out of range.\<close>

definition getitem :: "'a list \<Rightarrow> nat \<Rightarrow> error + 'a" where
  "getitem xs i = (if i < length xs then Inr (xs ! i) else Inl IndexError)"

text \<open>\<^verbatim>\<open>s[i:j]\<close> for \<open>0 \<le> i \<le> j\<close>: slicing clamps to the length and never raises.\<close>

definition slice :: "'a list \<Rightarrow> nat \<Rightarrow> nat \<Rightarrow> 'a list" where
  "slice s i j = take (j - i) (drop i s)"

text \<open>\<^verbatim>\<open>range(0, n, 2)\<close>\<close>

definition range_step2 :: "nat \<Rightarrow> nat list" where
  "range_step2 n = map (\<lambda>k. 2 * k) [0..<(n + 1) div 2]"

text \<open>\<^verbatim>\<open>sep.join(xs)\<close>\<close>

fun join :: "string \<Rightarrow> string list \<Rightarrow> string" where
  "join sep [] = []"
| "join sep [x] = x"
| "join sep (x # y # ys) = x @ sep @ join sep (y # ys)"

text \<open>\<^verbatim>\<open>chr(b)\<close> for a byte value.\<close>

definition chr :: "nat \<Rightarrow> char" where
  "chr n = char_of n"

definition hexdigits_lower :: string where
  "hexdigits_lower = ''0123456789abcdef''"

definition hexdigits_upper :: string where
  "hexdigits_upper = ''0123456789ABCDEF''"

text \<open>\<^verbatim>\<open>binascii.hexlify(data).decode('ascii')\<close>: two lowercase digits per byte.\<close>

definition hexlify :: "byte list \<Rightarrow> string" where
  "hexlify data =
     concat (map (\<lambda>b. [hexdigits_lower ! (unat b div 16), hexdigits_lower ! (unat b mod 16)]) data)"

text \<open>
  The format specification \<^verbatim>\<open>02X\<close>: the uppercase hexadecimal digits of the number,
  most significant first, padded with zeros on the left to a width of at least 2.
\<close>

fun hex_upper :: "nat \<Rightarrow> string" where
  "hex_upper n =
     (if n < 16 then [hexdigits_upper ! n]
      else hex_upper (n div 16) @ [hexdigits_upper ! (n mod 16)])"

declare hex_upper.simps [simp del]

definition zero_pad :: "nat \<Rightarrow> string \<Rightarrow> string" where
  "zero_pad w s = replicate (w - length s) (CHR ''0'') @ s"

definition fmt_02X :: "nat \<Rightarrow> string" where
  "fmt_02X n = zero_pad 2 (hex_upper n)"

text \<open>\<^verbatim>\<open>str(n)\<close> of a non-negative integer, as an f-string field renders it.\<close>

fun str_int :: "nat \<Rightarrow> string" where
  "str_int n =
     (if n < 10 then [''0123456789'' ! n]
      else str_int (n div 10) @ [''0123456789'' ! (n mod 10)])"

declare str_int.simps [simp del]

text \<open>
  \<^verbatim>\<open>bytes.decode('ascii', errors='ignore')\<close>: bytes below 128 become their
  characters, every other byte is dropped.
\<close>

definition decode_ascii_ignore :: "byte list \<Rightarrow> string" where
  "decode_ascii_ignore bs = map (\<lambda>b. chr (unat b)) (filter (\<lambda>b. unat b < 128) bs)"

text \<open>
  \<^verbatim>\<open>str.isspace\<close> on one character with a code point below 256, and
  \<^verbatim>\<open>str.strip()\<close>, which removes such characters from both ends.
\<close>

definition isspace :: "char \<Rightarrow> bool" where
  "isspace c = ((of_char c :: nat) \<in> {9, 10, 11, 12, 13, 28, 29, 30, 31, 32, 133, 160})"

definition strip :: "string \<Rightarrow> string" where
  "strip s = rev (dropWhile isspace (rev (dropWhile isspace s)))"

text \<open>
  \<^verbatim>\<open>repr\<close> of a \<^verbatim>\<open>bytes\<close> object, which raw mode prints: the quote is a single quote
  unless the data holds a single quote and no double quote.
\<close>

definition repr_byte :: "char \<Rightarrow> byte \<Rightarrow> string" where
  "repr_byte quote b =
     (let n = unat b in
      if chr n = quote \<or> n = 92 then [CHR 0x5C, chr n]
      else if n = 9 then [CHR 0x5C, CHR ''t'']
      else if n = 10 then [CHR 0x5C, CHR ''n'']
      else if n = 13 then [CHR 0x5C, CHR ''r'']
      else if n < 32 \<or> 127 \<le> n then
        [CHR 0x5C, CHR ''x'', hexdigits_lower ! (n div 16), hexdigits_lower ! (n mod 16)]
      else [chr n])"

definition repr_bytes :: "byte list \<Rightarrow> string" where
  "repr_bytes data =
     (let quote = (if 39 \<in> set data \<and> 34 \<notin> set data then CHR 0x22 else CHR 0x27)
      in [CHR ''b'', quote] @ concat (map (repr_byte quote) data) @ [quote])"

subsection \<open>ANSI colour constants\<close>

definition GREEN :: string where "GREEN = CHR 0x1B # ''[32m''"
definition YELLOW :: string where "YELLOW = CHR 0x1B # ''[33m''"
definition BLUE :: string where "BLUE = CHR 0x1B # ''[34m''"
definition MAGENTA :: string where "MAGENTA = CHR 0x1B # ''[35m''"
definition CYAN :: string where "CYAN = CHR 0x1B # ''[36m''"
definition RESET :: string where "RESET = CHR 0x1B # ''[0m''"

subsection \<open>\<^verbatim>\<open>format_bytes\<close>\<close>

text \<open>The loop that builds \<^verbatim>\<open>readable\<close>, one character appended per byte.\<close>

fun readable_loop :: "string \<Rightarrow> byte list \<Rightarrow> string" where
  "readable_loop readable [] = readable"
| "readable_loop readable (b # bs) =
     (if 32 \<le> unat b \<and> unat b \<le> 126
      then readable_loop (readable @ [chr (unat b)]) bs
      else readable_loop (readable @ ''.'') bs)"

definition format_bytes :: "byte list \<Rightarrow> string \<times> string" where
  "format_bytes data =
     (let hex_data = hexlify data;
          hex_pairs = map (\<lambda>i. slice hex_data i (i + 2)) (range_step2 (length hex_data));
          readable = readable_loop [] data;
          hex_formatted = join '' '' hex_pairs
      in (hex_formatted, readable))"

subsection \<open>\<^verbatim>\<open>decode_monome_message\<close>\<close>

text \<open>
  The result dictionary: the keys \<^verbatim>\<open>raw_hex\<close>, \<^verbatim>\<open>type\<close> and \<^verbatim>\<open>decoded\<close> are always
  present, \<^verbatim>\<open>color\<close> only when a rule has set it.
\<close>

record message =
  raw_hex :: string
  type :: string
  decoded :: string
  color :: "string option"

definition decode_monome_message :: "byte list \<Rightarrow> error + message option" where
  "decode_monome_message data =
     (if data = [] \<or> length data < 1 then Inr None
      else
        bind_exc (getitem data 0) (\<lambda>b0.
        let message_type = unat b0;
            result = \<lparr> raw_hex = join '' '' (map (\<lambda>b. fmt_02X (unat b)) data),
                       type = ''0x'' @ fmt_02X message_type,
                       decoded = ''Unknown'',
                       color = None \<rparr>
        in
        if message_type = 0x00 \<and> length data \<ge> 3 then
          bind_exc (getitem data 1) (\<lambda>d1. bind_exc (getitem data 2) (\<lambda>d2.
            Inr (Some (result\<lparr> decoded := ''Key UP at ('' @ str_int (unat d1) @ '', ''
                                             @ str_int (unat d2) @ '')'',
                                 color := Some CYAN \<rparr>))))
        else if message_type = 0x01 \<and> length data \<ge> 3 then
          bind_exc (getitem data 1) (\<lambda>d1. bind_exc (getitem data 2) (\<lambda>d2.
            Inr (Some (result\<lparr> decoded := ''Key DOWN at ('' @ str_int (unat d1) @ '', ''
                                             @ str_int (unat d2) @ '')'',
                                 color := Some MAGENTA \<rparr>))))
        else if message_type = 0x20 \<and> length data \<ge> 3 then
          bind_exc (getitem data 1) (\<lambda>d1. bind_exc (getitem data 2) (\<lambda>d2.
            Inr (Some (result\<lparr> decoded := ''Key UP at ('' @ str_int (unat d1) @ '', ''
                                             @ str_int (unat d2) @ '') [Alt code]'',
                                 color := Some CYAN \<rparr>))))
        else if message_type = 0x21 \<and> length data \<ge> 3 then
          bind_exc (getitem data 1) (\<lambda>d1. bind_exc (getitem data 2) (\<lambda>d2.
            Inr (Some (result\<lparr> decoded := ''Key DOWN at ('' @ str_int (unat d1) @ '', ''
                                             @ str_int (unat d2) @ '') [Alt code]'',
                                 color := Some MAGENTA \<rparr>))))
        else
          bind_exc (if message_type = 0x00 \<and> length data \<ge> 3
                    then bind_exc (getitem data 1) (\<lambda>d1. Inr (unat d1 \<le> 15))
                    else Inr False) (\<lambda>system_query.
          if system_query then
            bind_exc (getitem data 1) (\<lambda>d1. bind_exc (getitem data 2) (\<lambda>d2.
              Inr (Some (result\<lparr> decoded := ''System Query Response: Section ''
                                               @ str_int (unat d1) @ '', Count ''
                                               @ str_int (unat d2),
                                   color := Some BLUE \<rparr>))))
          else if message_type = 0x01 \<and> length data > 1 then
            (let device_id = strip (decode_ascii_ignore (drop 1 data))
             in Inr (Some (result\<lparr> decoded := ''Device ID: '' @ device_id,
                                      color := Some GREEN \<rparr>)))
          else if message_type = 0x03 \<and> length data \<ge> 3 then
            bind_exc (getitem data 1) (\<lambda>d1. bind_exc (getitem data 2) (\<lambda>d2.
              Inr (Some (result\<lparr> decoded := ''Grid Size: '' @ str_int (unat d1) @ ''x''
                                               @ str_int (unat d2),
                                   color := Some YELLOW \<rparr>))))
          else Inr (Some result))))"

subsection \<open>The read loop of \<^verbatim>\<open>log_serial_data\<close>\<close>

text \<open>
  One chunk that the loop has read and found non-empty, rendered in the active display
  mode. The time stamp is what \<^verbatim>\<open>datetime.now().strftime("%H:%M:%S.%f")[:-3]\<close> gave.
  \<^verbatim>\<open>if message:\<close> tests a dictionary that always holds three keys, so it is false
  exactly for \<^verbatim>\<open>None\<close>.
\<close>

definition render_chunk :: "bool \<Rightarrow> bool \<Rightarrow> string \<Rightarrow> byte list \<Rightarrow> error + string" where
  "render_chunk hex_mode interpret timestamp data =
     (if hex_mode then
        (case format_bytes data of (hex_data, ascii_data) \<Rightarrow>
           Inr (''['' @ timestamp @ ''] HEX: '' @ hex_data @ '' | ASCII: '' @ ascii_data))
      else if interpret then
        bind_exc (decode_monome_message data) (\<lambda>message.
          case message of
            Some m \<Rightarrow>
              (let color = (case color m of Some c \<Rightarrow> c | None \<Rightarrow> RESET)
               in Inr (''['' @ timestamp @ ''] '' @ color @ decoded m @ RESET
                       @ '' ['' @ raw_hex m @ '']''))
          | None \<Rightarrow>
              (case format_bytes data of (hex_data, _) \<Rightarrow>
                 Inr (''['' @ timestamp @ ''] Raw data: '' @ hex_data)))
      else Inr (''['' @ timestamp @ ''] '' @ repr_bytes data))"

text \<open>
  The \<^verbatim>\<open>while True\<close> loop over the reads of one run: each element is one iteration in
  which bytes were waiting, with the time stamp taken and the chunk returned by
  \<^verbatim>\<open>ser.read\<close>. The result is the list of lines printed (and written to the log file),
  in order; an exception leaves the loop.
\<close>

fun read_loop :: "bool \<Rightarrow> bool \<Rightarrow> (string \<times> byte list) list \<Rightarrow> error + string list" where
  "read_loop hex_mode interpret [] = Inr []"
| "read_loop hex_mode interpret ((timestamp, data) # reads) =
     (if data \<noteq> [] then
        bind_exc (render_chunk hex_mode interpret timestamp data) (\<lambda>output.
        bind_exc (read_loop hex_mode interpret reads) (\<lambda>outputs.
          Inr (output # outputs)))
      else read_loop hex_mode interpret reads)"

subsection \<open>Notions used to state the properties\<close>

text \<open>The value of one hexadecimal digit, of either case.\<close>

definition hex_value :: "char \<Rightarrow> nat" where
  "hex_value c =
     (let k = (of_char c :: nat) in
      if 48 \<le> k \<and> k \<le> 57 then k - 48
      else if 65 \<le> k \<and> k \<le> 70 then k - 55
      else if 97 \<le> k \<and> k \<le> 102 then k - 87
      else 0)"

text \<open>The string \<open>s\<close> is the number \<open>n\<close> written as two hexadecimal digits of the given alphabet.\<close>

definition two_hex_digits :: "string \<Rightarrow> nat \<Rightarrow> string \<Rightarrow> bool" where
  "two_hex_digits alphabet n s \<longleftrightarrow>
     length s = 2 \<and> s ! 0 \<in> set alphabet \<and> s ! 1 \<in> set alphabet \<and>
     16 * hex_value (s ! 0) + hex_value (s ! 1) = n"

text \<open>
  The string \<open>s\<close> holds one two-digit octet per byte of \<open>data\<close>, in input order,
  consecutive octets separated by exactly one space, and nothing else.
\<close>

definition spaced_octets :: "string \<Rightarrow> byte list \<Rightarrow> string \<Rightarrow> bool" where
  "spaced_octets alphabet data s \<longleftrightarrow>
     length s = 3 * length data - 1 \<and>
     (\<forall>i < length data. two_hex_digits alphabet (unat (data ! i)) (slice s (3 * i) (3 * i + 2))) \<and>
     (\<forall>i < length data - 1. s ! (3 * i + 2) = CHR '' '')"

text \<open>\<^verbatim>\<open>s.split(sep)\<close> for a one-character separator, as the split property uses it.\<close>

fun split :: "char \<Rightarrow> string \<Rightarrow> string list" where
  "split sep [] = [[]]"
| "split sep (c # cs) =
     (if c = sep then [] # split sep cs
      else (case split sep cs of t # ts \<Rightarrow> (c # t) # ts | [] \<Rightarrow> [[c]]))"

text \<open>The conditions of the seven branches of the decoder, in the order of the source.\<close>

definition cond_key_up :: "byte list \<Rightarrow> bool" where
  "cond_key_up data \<longleftrightarrow> unat (data ! 0) = 0x00 \<and> length data \<ge> 3"

definition cond_key_down :: "byte list \<Rightarrow> bool" where
  "cond_key_down data \<longleftrightarrow> unat (data ! 0) = 0x01 \<and> length data \<ge> 3"

definition cond_key_up_alt :: "byte list \<Rightarrow> bool" where
  "cond_key_up_alt data \<longleftrightarrow> unat (data ! 0) = 0x20 \<and> length data \<ge> 3"

definition cond_key_down_alt :: "byte list \<Rightarrow> bool" where
  "cond_key_down_alt data \<longleftrightarrow> unat (data ! 0) = 0x21 \<and> length data \<ge> 3"

definition cond_system_query :: "byte list \<Rightarrow> bool" where
  "cond_system_query data \<longleftrightarrow>
     unat (data ! 0) = 0x00 \<and> length data \<ge> 3 \<and> unat (data ! 1) \<le> 15"

definition cond_device_id :: "byte list \<Rightarrow> bool" where
  "cond_device_id data \<longleftrightarrow> unat (data ! 0) = 0x01 \<and> length data > 1"

definition cond_grid_size :: "byte list \<Rightarrow> bool" where
  "cond_grid_size data \<longleftrightarrow> unat (data ! 0) = 0x03 \<and> length data \<ge> 3"

text \<open>The value of a string of decimal digits.\<close>

definition decimal_value :: "string \<Rightarrow> nat" where
  "decimal_value s = foldl (\<lambda>a c. 10 * a + (of_char c - 48)) 0 s"

section \<open>Auxiliary facts\<close>

subsection \<open>Hexadecimal digits\<close>

lemma upper_digit:
  assumes "d < 16"
  shows "hexdigits_upper ! d \<in> set hexdigits_upper" and "hex_value (hexdigits_upper ! d) = d"
proof -
  have all: "\<forall>d \<in> set [0..<16].
      hexdigits_upper ! d \<in> set hexdigits_upper \<and> hex_value (hexdigits_upper ! d) = d"
    by code_simp
  from assms have "d \<in> set [0..<16]" by simp
  with all show "hexdigits_upper ! d \<in> set hexdigits_upper" and "hex_value (hexdigits_upper ! d) = d"
    by blast+
qed

lemma lower_digit:
  assumes "d < 16"
  shows "hexdigits_lower ! d \<in> set hexdigits_lower" and "hex_value (hexdigits_lower ! d) = d"
proof -
  have all: "\<forall>d \<in> set [0..<16].
      hexdigits_lower ! d \<in> set hexdigits_lower \<and> hex_value (hexdigits_lower ! d) = d"
    by code_simp
  from assms have "d \<in> set [0..<16]" by simp
  with all show "hexdigits_lower ! d \<in> set hexdigits_lower" and "hex_value (hexdigits_lower ! d) = d"
    by blast+
qed

lemma fmt_02X_byte:
  assumes "n < 256"
  shows "fmt_02X n = [hexdigits_upper ! (n div 16), hexdigits_upper ! (n mod 16)]"
proof (cases "n < 16")
  case True
  then have "hex_upper n = [hexdigits_upper ! n]" by (simp add: hex_upper.simps)
  with True show ?thesis
    by (simp add: fmt_02X_def zero_pad_def hexdigits_upper_def)
next
  case False
  with assms have "n div 16 < 16" by simp
  then have "hex_upper (n div 16) = [hexdigits_upper ! (n div 16)]"
    by (simp add: hex_upper.simps)
  with False have "hex_upper n = [hexdigits_upper ! (n div 16), hexdigits_upper ! (n mod 16)]"
    by (subst hex_upper.simps) simp
  then show ?thesis by (simp add: fmt_02X_def zero_pad_def)
qed

lemma unat_byte_less: "unat (b :: byte) < 256"
  using unsigned_less [of b, where 'a = nat] by simp

lemma two_hex_upper_fmt: "two_hex_digits hexdigits_upper (unat (b::byte)) (fmt_02X (unat b))"
proof -
  have n: "unat b < 256" by (rule unat_byte_less)
  then have d: "unat b div 16 < 16" "unat b mod 16 < 16" by simp_all
  show ?thesis
    using upper_digit [OF d(1)] upper_digit [OF d(2)]
    by (simp add: fmt_02X_byte [OF n] two_hex_digits_def)
qed

lemma two_hex_lower_pair:
  "two_hex_digits hexdigits_lower (unat (b::byte))
     [hexdigits_lower ! (unat b div 16), hexdigits_lower ! (unat b mod 16)]"
proof -
  have n: "unat b < 256" by (rule unat_byte_less)
  then have d: "unat b div 16 < 16" "unat b mod 16 < 16" by simp_all
  show ?thesis
    using lower_digit [OF d(1)] lower_digit [OF d(2)]
    by (simp add: two_hex_digits_def)
qed

subsection \<open>Joining and slicing two-character octets\<close>

lemma join_cons:
  "ps \<noteq> [] \<Longrightarrow> join sep (x # ps) = x @ sep @ join sep ps"
  by (cases ps) simp_all

lemma join_pairs_length:
  "\<forall>p \<in> set ps. length p = 2 \<Longrightarrow> length (join '' '' ps) = 3 * length ps - 1"
proof (induction ps)
  case Nil
  then show ?case by simp
next
  case (Cons x ps)
  show ?case
  proof (cases "ps = []")
    case True
    with Cons.prems show ?thesis by simp
  next
    case False
    then have "0 < length ps" by simp
    with Cons False show ?thesis by (simp add: join_cons)
  qed
qed

lemma join_pairs_slice:
  "\<forall>p \<in> set ps. length p = 2 \<Longrightarrow> i < length ps \<Longrightarrow>
     slice (join '' '' ps) (3 * i) (3 * i + 2) = ps ! i"
proof (induction ps arbitrary: i)
  case Nil
  then show ?case by simp
next
  case (Cons x ps)
  show ?case
  proof (cases "ps = []")
    case True
    with Cons.prems show ?thesis by (simp add: slice_def)
  next
    case False
    show ?thesis
    proof (cases i)
      case 0
      with Cons.prems False show ?thesis by (simp add: join_cons slice_def)
    next
      case (Suc j)
      with Cons.prems have j: "j < length ps" by simp
      have "slice (join '' '' ps) (3 * j) (3 * j + 2) = ps ! j"
        using Cons.IH [OF _ j] Cons.prems by simp
      with Cons.prems False Suc show ?thesis by (simp add: join_cons slice_def)
    qed
  qed
qed

lemma join_pairs_space:
  "\<forall>p \<in> set ps. length p = 2 \<Longrightarrow> i < length ps - 1 \<Longrightarrow>
     join '' '' ps ! (3 * i + 2) = CHR '' ''"
proof (induction ps arbitrary: i)
  case Nil
  then show ?case by simp
next
  case (Cons x ps)
  from Cons.prems have ne: "ps \<noteq> []" by auto
  show ?case
  proof (cases i)
    case 0
    with Cons.prems ne show ?thesis by (simp add: join_cons nth_append)
  next
    case (Suc j)
    with Cons.prems have j: "j < length ps - 1" by simp
    have "join '' '' ps ! (3 * j + 2) = CHR '' ''"
      using Cons.IH [OF _ j] Cons.prems by simp
    with Cons.prems ne Suc show ?thesis by (simp add: join_cons nth_append)
  qed
qed

lemma concat_pairs_slice:
  "\<forall>p \<in> set ps. length p = 2 \<Longrightarrow> k < length ps \<Longrightarrow>
     slice (concat ps) (2 * k) (2 * k + 2) = ps ! k"
proof (induction ps arbitrary: k)
  case Nil
  then show ?case by simp
next
  case (Cons x ps)
  show ?case
  proof (cases k)
    case 0
    with Cons.prems show ?thesis by (simp add: slice_def)
  next
    case (Suc j)
    with Cons.prems have j: "j < length ps" by simp
    have "slice (concat ps) (2 * j) (2 * j + 2) = ps ! j"
      using Cons.IH [OF _ j] Cons.prems by simp
    with Cons.prems Suc show ?thesis by (simp add: slice_def)
  qed
qed

lemma concat_pairs_length:
  "\<forall>p \<in> set ps. length p = 2 \<Longrightarrow> length (concat ps) = 2 * length ps"
  by (induction ps) simp_all

lemma hex_pairs_concat:
  assumes "\<forall>p \<in> set ps. length p = 2"
  shows "map (\<lambda>i. slice (concat ps) i (i + 2)) (range_step2 (length (concat ps))) = ps"
proof (rule nth_equalityI)
  show "length (map (\<lambda>i. slice (concat ps) i (i + 2)) (range_step2 (length (concat ps)))) = length ps"
    by (simp add: range_step2_def concat_pairs_length [OF assms])
next
  fix k
  assume "k < length (map (\<lambda>i. slice (concat ps) i (i + 2)) (range_step2 (length (concat ps))))"
  then have k: "k < length ps"
    by (simp add: range_step2_def concat_pairs_length [OF assms])
  then show "map (\<lambda>i. slice (concat ps) i (i + 2)) (range_step2 (length (concat ps))) ! k = ps ! k"
    using concat_pairs_slice [OF assms k]
    by (simp add: range_step2_def concat_pairs_length [OF assms])
qed

lemma readable_loop_map:
  "readable_loop acc data =
     acc @ map (\<lambda>b. if 32 \<le> unat b \<and> unat b \<le> 126 then chr (unat b) else CHR ''.'') data"
  by (induction data arbitrary: acc) simp_all

lemma hex_formatted_join:
  "fst (format_bytes data) =
     join '' '' (map (\<lambda>b. [hexdigits_lower ! (unat b div 16), hexdigits_lower ! (unat b mod 16)]) data)"
proof -
  let ?ps = "map (\<lambda>b::byte. [hexdigits_lower ! (unat b div 16), hexdigits_lower ! (unat b mod 16)]) data"
  have "\<forall>p \<in> set ?ps. length p = 2" by auto
  from hex_pairs_concat [OF this] show ?thesis
    by (simp add: format_bytes_def hexlify_def Let_def)
qed

lemma readable_map:
  "snd (format_bytes data) =
     map (\<lambda>b. if 32 \<le> unat b \<and> unat b \<le> 126 then chr (unat b) else CHR ''.'') data"
  by (simp add: format_bytes_def Let_def readable_loop_map)

subsection \<open>The decoder in closed form\<close>

lemma decode_nonempty:
  assumes "data \<noteq> []"
  shows "decode_monome_message data = Inr (Some (
     let message_type = unat (data ! 0);
         result = \<lparr> raw_hex = join '' '' (map (\<lambda>b. fmt_02X (unat b)) data),
                    type = ''0x'' @ fmt_02X message_type,
                    decoded = ''Unknown'',
                    color = None \<rparr>
     in
     if message_type = 0x00 \<and> length data \<ge> 3 then
       result\<lparr> decoded := ''Key UP at ('' @ str_int (unat (data ! 1)) @ '', ''
                             @ str_int (unat (data ! 2)) @ '')'',
               color := Some CYAN \<rparr>
     else if message_type = 0x01 \<and> length data \<ge> 3 then
       result\<lparr> decoded := ''Key DOWN at ('' @ str_int (unat (data ! 1)) @ '', ''
                             @ str_int (unat (data ! 2)) @ '')'',
               color := Some MAGENTA \<rparr>
     else if message_type = 0x20 \<and> length data \<ge> 3 then
       result\<lparr> decoded := ''Key UP at ('' @ str_int (unat (data ! 1)) @ '', ''
                             @ str_int (unat (data ! 2)) @ '') [Alt code]'',
               color := Some CYAN \<rparr>
     else if message_type = 0x21 \<and> length data \<ge> 3 then
       result\<lparr> decoded := ''Key DOWN at ('' @ str_int (unat (data ! 1)) @ '', ''
                             @ str_int (unat (data ! 2)) @ '') [Alt code]'',
               color := Some MAGENTA \<rparr>
     else if message_type = 0x01 \<and> length data > 1 then
       result\<lparr> decoded := ''Device ID: '' @ strip (decode_ascii_ignore (drop 1 data)),
               color := Some GREEN \<rparr>
     else if message_type = 0x03 \<and> length data \<ge> 3 then
       result\<lparr> decoded := ''Grid Size: '' @ str_int (unat (data ! 1)) @ ''x''
                             @ str_int (unat (data ! 2)),
               color := Some YELLOW \<rparr>
     else result))"
  using assms
  by (simp add: decode_monome_message_def getitem_def bind_exc_def Let_def)

lemma decode_fields:
  assumes "data \<noteq> []"
  shows "\<exists>m. decode_monome_message data = Inr (Some m) \<and>
             raw_hex m = join '' '' (map (\<lambda>b. fmt_02X (unat b)) data) \<and>
             type m = ''0x'' @ fmt_02X (unat (hd data))"
proof -
  from assms have "hd data = data ! 0" by (simp add: hd_conv_nth)
  then show ?thesis
    by (simp add: decode_nonempty [OF assms] Let_def)
qed

lemma spaced_octets_join:
  assumes "\<forall>b. two_hex_digits alphabet (unat b) (f b)"
  shows "spaced_octets alphabet data (join '' '' (map f data))"
proof -
  from assms have len: "\<forall>p \<in> set (map f data). length p = 2"
    by (auto simp: two_hex_digits_def)
  show ?thesis
    unfolding spaced_octets_def
  proof (intro conjI allI impI)
    show "length (join '' '' (map f data)) = 3 * length data - 1"
      using join_pairs_length [OF len] by simp
  next
    fix i assume i: "i < length data"
    then have "slice (join '' '' (map f data)) (3 * i) (3 * i + 2) = f (data ! i)"
      using join_pairs_slice [OF len, of i] by simp
    with assms show "two_hex_digits alphabet (unat (data ! i))
        (slice (join '' '' (map f data)) (3 * i) (3 * i + 2))"
      by simp
  next
    fix i assume "i < length data - 1"
    then show "join '' '' (map f data) ! (3 * i + 2) = CHR '' ''"
      using join_pairs_space [OF len, of i] by simp
  qed
qed

subsection \<open>Decimal rendering\<close>

text \<open>The digits that \<open>str_int\<close> writes read back as the number itself.\<close>

lemma str_int_decimal: "decimal_value (str_int n) = n"
proof (induction n rule: str_int.induct)
  case (1 n)
  have digit: "\<forall>d \<in> set [0..<10]. (of_char (''0123456789'' ! d) :: nat) - 48 = d"
    by code_simp
  show ?case
  proof (cases "n < 10")
    case True
    then have "n \<in> set [0..<10]" by simp
    with digit have "(of_char (''0123456789'' ! n) :: nat) - 48 = n" by blast
    with True show ?thesis
      by (subst str_int.simps) (simp add: decimal_value_def)
  next
    case False
    have "n mod 10 \<in> set [0..<10]" by simp
    with digit have d: "(of_char (''0123456789'' ! (n mod 10)) :: nat) - 48 = n mod 10" by blast
    from False 1 have "decimal_value (str_int (n div 10)) = n div 10" by simp
    with False d show ?thesis
      by (subst str_int.simps) (simp add: decimal_value_def)
  qed
qed

subsection \<open>Rendering one chunk in interpret mode\<close>

lemma decode_color_escape:
  assumes "data \<noteq> []"
  shows "\<exists>m c. decode_monome_message data = Inr (Some m) \<and>
               (case color m of Some c \<Rightarrow> c | None \<Rightarrow> RESET) = CHR 0x1B # c"
  unfolding decode_nonempty [OF assms]
  by (simp add: Let_def RESET_def CYAN_def MAGENTA_def GREEN_def YELLOW_def)

lemma render_interpret:
  assumes "decode_monome_message data = Inr (Some m)"
  shows "render_chunk False True timestamp data =
           Inr (''['' @ timestamp @ ''] '' @ (case color m of Some c \<Rightarrow> c | None \<Rightarrow> RESET)
                @ decoded m @ RESET @ '' ['' @ raw_hex m @ '']'')"
  using assms by (simp add: render_chunk_def bind_exc_def Let_def)

lemma render_interpret_line:
  assumes "data \<noteq> []"
  shows "\<exists>output. render_chunk False True timestamp data = Inr output \<and>
           \<not> prefix (''['' @ timestamp @ ''] Raw data: '') output \<and>
           \<not> prefix ''Raw data: '' output"
proof -
  from decode_color_escape [OF assms] obtain m c where
    m: "decode_monome_message data = Inr (Some m)"
    and c: "(case color m of Some c \<Rightarrow> c | None \<Rightarrow> RESET) = CHR 0x1B # c"
    by blast
  show ?thesis
    unfolding render_interpret [OF m] c by simp
qed

subsection \<open>Splitting a joined string\<close>

lemma split_no_sep: "sep \<notin> set x \<Longrightarrow> split sep x = [x]"
  by (induction x) auto

lemma split_append_sep:
  "sep \<notin> set x \<Longrightarrow> split sep (x @ sep # rest) = x # split sep rest"
  by (induction x) auto

lemma split_join:
  "\<forall>p \<in> set ps. CHR '' '' \<notin> set p \<Longrightarrow> ps \<noteq> [] \<Longrightarrow> split (CHR '' '') (join '' '' ps) = ps"
proof (induction ps)
  case Nil
  then show ?case by simp
next
  case (Cons x ps)
  show ?case
  proof (cases "ps = []")
    case True
    with Cons.prems show ?thesis by (simp add: split_no_sep)
  next
    case False
    with Cons have "split (CHR '' '') (join '' '' ps) = ps" by simp
    with Cons.prems False show ?thesis
      by (simp add: join_cons split_append_sep)
  qed
qed

lemma lower_pair_no_space:
  "CHR '' '' \<notin> set [hexdigits_lower ! (unat (b::byte) div 16), hexdigits_lower ! (unat b mod 16)]"
proof -
  have "unat b < 256" by (rule unat_byte_less)
  then have d: "unat b div 16 < 16" "unat b mod 16 < 16" by simp_all
  have "CHR '' '' \<notin> set hexdigits_lower" by (simp add: hexdigits_lower_def)
  with lower_digit(1) [OF d(1)] lower_digit(1) [OF d(2)] show ?thesis by auto
qed

lemma split_format_bytes:
  assumes "data \<noteq> []"
  shows "split (CHR '' '') (fst (format_bytes data)) =
           map (\<lambda>b. [hexdigits_lower ! (unat b div 16), hexdigits_lower ! (unat b mod 16)]) data"
  unfolding hex_formatted_join
  by (rule split_join) (use assms lower_pair_no_space in auto)

section \<open>Properties\<close>

subsection \<open>C1\<close>

text \<open>
  C1: every input of length at least 3 whose first byte is \<open>0x00\<close> is described as
  \<^verbatim>\<open>Key UP at (x, y)\<close>, with \<open>x\<close> and \<open>y\<close> the decimal renderings of the second
  and third byte. The condition of the system-query branch implies that of the key-up
  branch, which is tested first, so for no input does the decoder return the
  system-query description or its colour.
\<close>

theorem key_up_shadows_system_query:
  "(length data \<ge> 3 \<and> data ! 0 = 0x00 \<longrightarrow>
      (\<exists>m. decode_monome_message data = Inr (Some m) \<and>
           decoded m = ''Key UP at ('' @ str_int (unat (data ! 1)) @ '', ''
                       @ str_int (unat (data ! 2)) @ '')'' \<and>
           color m = Some CYAN)) \<and>
   (cond_system_query data \<longrightarrow> cond_key_up data) \<and>
   (\<forall>m. decode_monome_message data = Inr (Some m) \<longrightarrow>
      \<not> prefix ''System Query Response'' (decoded m) \<and> color m \<noteq> Some BLUE)"
proof (intro conjI impI allI)
  assume a: "length data \<ge> 3 \<and> data ! 0 = 0x00"
  then have "data \<noteq> []" by auto
  from decode_nonempty [OF this] a
  show "\<exists>m. decode_monome_message data = Inr (Some m) \<and>
           decoded m = ''Key UP at ('' @ str_int (unat (data ! 1)) @ '', ''
                       @ str_int (unat (data ! 2)) @ '')'' \<and>
           color m = Some CYAN"
    by (simp add: Let_def)
next
  assume "cond_system_query data"
  then show "cond_key_up data" by (simp add: cond_system_query_def cond_key_up_def)
next
  fix m assume m: "decode_monome_message data = Inr (Some m)"
  then have ne: "data \<noteq> []" by (auto simp: decode_monome_message_def)
  from m show "\<not> prefix ''System Query Response'' (decoded m)"
    unfolding decode_nonempty [OF ne] by (auto simp: Let_def split: if_splits)
  from m show "color m \<noteq> Some BLUE"
    unfolding decode_nonempty [OF ne]
    by (auto simp: Let_def BLUE_def CYAN_def MAGENTA_def GREEN_def YELLOW_def split: if_splits)
qed

theorem key_up_shadows_system_query_witness:
  "length [0x00, 5, 2 :: byte] \<ge> 3 \<and> [0x00, 5, 2 :: byte] ! 0 = 0x00 \<and>
   cond_system_query [0x00, 5, 2] \<and> cond_key_up [0x00, 5, 2] \<and>
   (\<exists>m. decode_monome_message [0x00, 5, 2] = Inr (Some m) \<and>
        decoded m = ''Key UP at (5, 2)'' \<and> color m = Some CYAN \<and>
        \<not> prefix ''System Query Response'' (decoded m) \<and> color m \<noteq> Some BLUE)"
proof -
  have c: "cond_system_query [0x00, 5, 2]" by (simp add: cond_system_query_def)
  have s: "str_int 5 = ''5''" "str_int 2 = ''2''" by (simp_all add: str_int.simps)
  show ?thesis
    using key_up_shadows_system_query [of "[0x00, 5, 2]"] c s by auto
qed

subsection \<open>C2\<close>

text \<open>
  C2, as stated: the first component of \<open>format_bytes\<close> writes every byte as two
  uppercase hexadecimal digits. It fails at the single byte \<open>0xAB\<close>, which
  \<^verbatim>\<open>binascii.hexlify\<close> writes in lowercase.
\<close>

theorem format_bytes_hex_uppercase_counterexample:
  "fst (format_bytes [0xAB]) = ''ab'' \<and>
   \<not> spaced_octets hexdigits_upper [0xAB] (fst (format_bytes [0xAB]))"
  by code_simp

text \<open>
  C2, amended: for every byte sequence the first component of \<open>format_bytes\<close> writes
  each byte as two lowercase hexadecimal digits, in input order, consecutive octets
  separated by a single space; for the empty input it is the empty string.
\<close>

theorem format_bytes_hex_lowercase:
  "spaced_octets hexdigits_lower data (fst (format_bytes data)) \<and>
   fst (format_bytes []) = []"
proof
  show "spaced_octets hexdigits_lower data (fst (format_bytes data))"
    unfolding hex_formatted_join
    by (rule spaced_octets_join) (simp add: two_hex_lower_pair)
  show "fst (format_bytes []) = []"
    by (simp add: hex_formatted_join)
qed

theorem format_bytes_hex_lowercase_witness:
  "spaced_octets hexdigits_lower [0xAB, 0x41] (fst (format_bytes [0xAB, 0x41])) \<and>
   fst (format_bytes [0xAB, 0x41]) = ''ab 41''"
proof
  show "spaced_octets hexdigits_lower [0xAB, 0x41] (fst (format_bytes [0xAB, 0x41]))"
    using format_bytes_hex_lowercase [of "[0xAB, 0x41]"] by simp
  show "fst (format_bytes [0xAB, 0x41]) = ''ab 41''"
    by code_simp
qed

subsection \<open>C3\<close>

text \<open>
  C3: \<open>decode_monome_message\<close> returns \<^verbatim>\<open>None\<close> exactly for the empty input; it
  raises for no input at all, and every non-empty input gives a result dictionary.
\<close>

theorem decode_none_iff_empty:
  "(decode_monome_message data = Inr None \<longleftrightarrow> data = []) \<and>
   (\<exists>r. decode_monome_message data = Inr r) \<and>
   (data \<noteq> [] \<longrightarrow> (\<exists>m. decode_monome_message data = Inr (Some m)))"
proof (cases "data = []")
  case True
  then show ?thesis by (simp add: decode_monome_message_def)
next
  case False
  from decode_fields [OF False] obtain m where "decode_monome_message data = Inr (Some m)"
    by blast
  with False show ?thesis by simp
qed

theorem decode_none_iff_empty_witness:
  "decode_monome_message [] = Inr None \<and>
   [0x05 :: byte] \<noteq> [] \<and> decode_monome_message [0x05] \<noteq> Inr None \<and>
   (\<exists>m. decode_monome_message [0x05] = Inr (Some m))"
  using decode_none_iff_empty [of "[]"] decode_none_iff_empty [of "[0x05]"] by simp

subsection \<open>C4\<close>

text \<open>
  C4: a non-empty input that satisfies none of the seven branch conditions is decoded,
  without an exception, to a dictionary whose description is \<^verbatim>\<open>Unknown\<close> and which
  has no \<^verbatim>\<open>color\<close> key.
\<close>

theorem no_rule_gives_unknown:
  assumes "data \<noteq> []"
    and "\<not> cond_key_up data" and "\<not> cond_key_down data"
    and "\<not> cond_key_up_alt data" and "\<not> cond_key_down_alt data"
    and "\<not> cond_system_query data" and "\<not> cond_device_id data"
    and "\<not> cond_grid_size data"
  shows "\<exists>m. decode_monome_message data = Inr (Some m) \<and>
             decoded m = ''Unknown'' \<and> color m = None"
  using assms(2-)
  unfolding decode_nonempty [OF assms(1)] cond_key_up_def cond_key_down_def cond_key_up_alt_def
    cond_key_down_alt_def cond_system_query_def cond_device_id_def cond_grid_size_def
  by (simp add: Let_def)

theorem no_rule_gives_unknown_witness:
  "[0x00, 0x01 :: byte] \<noteq> [] \<and>
   \<not> cond_key_up [0x00, 0x01] \<and> \<not> cond_key_down [0x00, 0x01] \<and>
   \<not> cond_key_up_alt [0x00, 0x01] \<and> \<not> cond_key_down_alt [0x00, 0x01] \<and>
   \<not> cond_system_query [0x00, 0x01] \<and> \<not> cond_device_id [0x00, 0x01] \<and>
   \<not> cond_grid_size [0x00, 0x01] \<and>
   (\<exists>m. decode_monome_message [0x00, 0x01] = Inr (Some m) \<and>
        decoded m = ''Unknown'' \<and> color m = None)"
proof -
  have c: "\<not> cond_key_up [0x00, 0x01]" "\<not> cond_key_down [0x00, 0x01]"
    "\<not> cond_key_up_alt [0x00, 0x01]" "\<not> cond_key_down_alt [0x00, 0x01]"
    "\<not> cond_system_query [0x00, 0x01]" "\<not> cond_device_id [0x00, 0x01]"
    "\<not> cond_grid_size [0x00, 0x01]"
    by (simp_all add: cond_key_up_def cond_key_down_def cond_key_up_alt_def
        cond_key_down_alt_def cond_system_query_def cond_device_id_def cond_grid_size_def)
  have ne: "[0x00, 0x01 :: byte] \<noteq> []" by simp
  from no_rule_gives_unknown [OF ne c] ne c show ?thesis by blast
qed

subsection \<open>C5\<close>

text \<open>
  C5: for every non-empty input the decoder returns a dictionary whose \<^verbatim>\<open>raw_hex\<close>
  holds every input byte as two uppercase hexadecimal digits, joined by single spaces in
  input order, and whose \<^verbatim>\<open>type\<close> is \<^verbatim>\<open>0x\<close> followed by the first byte as two
  uppercase hexadecimal digits, whichever branch classified the message.
\<close>

theorem decode_raw_hex_and_opcode:
  assumes "data \<noteq> []"
  shows "\<exists>m. decode_monome_message data = Inr (Some m) \<and>
             spaced_octets hexdigits_upper data (raw_hex m) \<and>
             (\<exists>h. type m = ''0x'' @ h \<and> two_hex_digits hexdigits_upper (unat (hd data)) h)"
proof -
  from decode_fields [OF assms] obtain m where
    m: "decode_monome_message data = Inr (Some m)"
       "raw_hex m = join '' '' (map (\<lambda>b. fmt_02X (unat b)) data)"
       "type m = ''0x'' @ fmt_02X (unat (hd data))"
    by blast
  have "spaced_octets hexdigits_upper data (raw_hex m)"
    unfolding m(2) by (rule spaced_octets_join) (simp add: two_hex_upper_fmt)
  moreover have "two_hex_digits hexdigits_upper (unat (hd data)) (fmt_02X (unat (hd data)))"
    by (rule two_hex_upper_fmt)
  ultimately show ?thesis using m(1,3) by blast
qed

theorem decode_raw_hex_and_opcode_witness:
  "[0x21, 0xFF, 0x64 :: byte] \<noteq> [] \<and>
   (\<exists>m. decode_monome_message [0x21, 0xFF, 0x64] = Inr (Some m) \<and>
        spaced_octets hexdigits_upper [0x21, 0xFF, 0x64] (raw_hex m) \<and>
        (\<exists>h. type m = ''0x'' @ h \<and> two_hex_digits hexdigits_upper (unat (hd [0x21, 0xFF, 0x64 :: byte])) h))"
  using decode_raw_hex_and_opcode [of "[0x21, 0xFF, 0x64]"] by simp

subsection \<open>C6\<close>

text \<open>
  C6: the second component of \<open>format_bytes\<close> has the length of the input; its
  character at position \<open>i\<close> has the code of byte \<open>i\<close> when that byte lies in
  \<open>[0x20, 0x7E]\<close> and is the placeholder \<^verbatim>\<open>.\<close> otherwise.
\<close>

theorem format_bytes_ascii_shadow:
  "length (snd (format_bytes data)) = length data \<and>
   (\<forall>i < length data.
      (0x20 \<le> unat (data ! i) \<and> unat (data ! i) \<le> 0x7E \<longrightarrow>
         (of_char (snd (format_bytes data) ! i) :: nat) = unat (data ! i)) \<and>
      (\<not> (0x20 \<le> unat (data ! i) \<and> unat (data ! i) \<le> 0x7E) \<longrightarrow>
         snd (format_bytes data) ! i = CHR ''.''))"
  by (simp add: readable_map chr_def)

theorem format_bytes_ascii_shadow_witness:
  "length (snd (format_bytes [0x41, 0x00, 0x7E, 0x7F])) = length [0x41, 0x00, 0x7E, 0x7F :: byte] \<and>
   snd (format_bytes [0x41, 0x00, 0x7E, 0x7F]) = ''A.~.''"
proof
  show "length (snd (format_bytes [0x41, 0x00, 0x7E, 0x7F])) = length [0x41, 0x00, 0x7E, 0x7F :: byte]"
    using format_bytes_ascii_shadow [of "[0x41, 0x00, 0x7E, 0x7F]"] by simp
  show "snd (format_bytes [0x41, 0x00, 0x7E, 0x7F]) = ''A.~.''"
    by code_simp
qed

subsection \<open>C7\<close>

text \<open>
  C7, as stated: splitting the first component of \<open>format_bytes\<close> on the space
  character gives as many pieces as the input has bytes. It fails at the empty input,
  where the string is empty and splitting it gives one empty piece.
\<close>

theorem split_hex_string_empty_counterexample:
  "split (CHR '' '') (fst (format_bytes [])) = [''''] \<and>
   length (split (CHR '' '') (fst (format_bytes []))) \<noteq> length ([] :: byte list)"
  by (simp add: hex_formatted_join)

text \<open>
  C7, amended: for every non-empty byte sequence, splitting the first component of
  \<open>format_bytes\<close> on the space character gives exactly one piece per input byte, piece
  \<open>i\<close> being the two hexadecimal digits of byte \<open>i\<close>; for every byte sequence, the
  empty one included, the number of non-empty pieces is the number of input bytes.
\<close>

theorem split_hex_string_length:
  "(data \<noteq> [] \<longrightarrow>
      length (split (CHR '' '') (fst (format_bytes data))) = length data \<and>
      (\<forall>i < length data.
         two_hex_digits hexdigits_lower (unat (data ! i))
           (split (CHR '' '') (fst (format_bytes data)) ! i))) \<and>
   length (filter (\<lambda>t. t \<noteq> []) (split (CHR '' '') (fst (format_bytes data)))) = length data"
proof (cases "data = []")
  case True
  then show ?thesis by (simp add: hex_formatted_join)
next
  case False
  have "filter (\<lambda>t. t \<noteq> [])
          (map (\<lambda>b::byte. [hexdigits_lower ! (unat b div 16), hexdigits_lower ! (unat b mod 16)]) data)
        = map (\<lambda>b. [hexdigits_lower ! (unat b div 16), hexdigits_lower ! (unat b mod 16)]) data"
    by (induction data) simp_all
  with False show ?thesis
    by (simp add: split_format_bytes [OF False] two_hex_lower_pair)
qed

theorem split_hex_string_length_witness:
  "[0xAB, 0x41, 0x00 :: byte] \<noteq> [] \<and>
   length (split (CHR '' '') (fst (format_bytes [0xAB, 0x41, 0x00]))) = length [0xAB, 0x41, 0x00 :: byte] \<and>
   length (filter (\<lambda>t. t \<noteq> []) (split (CHR '' '') (fst (format_bytes [0xAB, 0x41, 0x00]))))
     = length [0xAB, 0x41, 0x00 :: byte]"
  using split_hex_string_length [of "[0xAB, 0x41, 0x00]"] by simp

subsection \<open>C8\<close>

text \<open>
  C8: every input of length at least 3 whose first byte is \<open>0x03\<close> is described as
  \<^verbatim>\<open>Grid Size: wxh\<close>, with \<open>w\<close> and \<open>h\<close> the decimal renderings of the second and
  third byte; the input \<open>[0x03, 16, 8]\<close> is described as \<^verbatim>\<open>Grid Size: 16x8\<close>.
\<close>

theorem grid_size_description:
  "(length data \<ge> 3 \<and> data ! 0 = 0x03 \<longrightarrow>
      (\<exists>m. decode_monome_message data = Inr (Some m) \<and>
           decoded m = ''Grid Size: '' @ str_int (unat (data ! 1)) @ ''x''
                       @ str_int (unat (data ! 2)))) \<and>
   (\<exists>m. decode_monome_message [0x03, 16, 8] = Inr (Some m) \<and>
        decoded m = ''Grid Size: 16x8'')"
proof (intro conjI impI)
  assume a: "length data \<ge> 3 \<and> data ! 0 = 0x03"
  then have "data \<noteq> []" by auto
  from decode_nonempty [OF this] a
  show "\<exists>m. decode_monome_message data = Inr (Some m) \<and>
           decoded m = ''Grid Size: '' @ str_int (unat (data ! 1)) @ ''x''
                       @ str_int (unat (data ! 2))"
    by (simp add: Let_def)
next
  have s: "str_int 16 = ''16''" "str_int 8 = ''8''" by (simp_all add: str_int.simps)
  have "[0x03, 16, 8 :: byte] \<noteq> []" by simp
  from decode_nonempty [OF this] s
  show "\<exists>m. decode_monome_message [0x03, 16, 8] = Inr (Some m) \<and>
        decoded m = ''Grid Size: 16x8''"
    by (simp add: Let_def)
qed

theorem grid_size_description_witness:
  "length [0x03, 255, 0 :: byte] \<ge> 3 \<and> [0x03, 255, 0 :: byte] ! 0 = 0x03 \<and>
   (\<exists>m. decode_monome_message [0x03, 255, 0] = Inr (Some m) \<and>
        decoded m = ''Grid Size: 255x0'')"
proof -
  have s: "str_int 255 = ''255''" "str_int 0 = ''0''" by (simp_all add: str_int.simps)
  show ?thesis
    using grid_size_description [of "[0x03, 255, 0]"] s by auto
qed

subsection \<open>C9\<close>

text \<open>
  C9: an input of exactly two bytes whose first byte is \<open>0x01\<close> reaches the device-id
  branch: it satisfies that branch's condition and not the key-down condition, and its
  description is \<^verbatim>\<open>Device ID: \<close> followed by the second byte decoded as ASCII, with
  a non-ASCII byte dropped and whitespace stripped, which leaves the one character of
  that byte or nothing.
\<close>

theorem device_id_length_two:
  assumes "length data = 2" and "data ! 0 = 0x01"
  shows "\<exists>m. decode_monome_message data = Inr (Some m) \<and>
             decoded m = ''Device ID: '' @ strip (decode_ascii_ignore [data ! 1]) \<and>
             strip (decode_ascii_ignore [data ! 1]) =
               (if unat (data ! 1) < 128 \<and> \<not> isspace (chr (unat (data ! 1)))
                then [chr (unat (data ! 1))] else []) \<and>
             color m = Some GREEN \<and>
             cond_device_id data \<and> \<not> cond_key_down data"
proof -
  from assms(1) obtain a b where d: "data = [a, b]"
    by (cases data; cases "tl data") auto
  with assms(2) have a: "a = 1" by simp
  have "data \<noteq> []" using d by simp
  from decode_nonempty [OF this] show ?thesis
    unfolding d a
    by (simp add: Let_def strip_def decode_ascii_ignore_def cond_device_id_def cond_key_down_def)
qed

theorem device_id_length_two_witness:
  "length [0x01, 0x41 :: byte] = 2 \<and> [0x01, 0x41 :: byte] ! 0 = 0x01 \<and>
   (\<exists>m. decode_monome_message [0x01, 0x41] = Inr (Some m) \<and>
        decoded m = ''Device ID: A'' \<and> color m = Some GREEN)"
proof -
  have s: "strip (decode_ascii_ignore [0x41]) = ''A''" by code_simp
  show ?thesis
    using device_id_length_two [of "[0x01, 0x41]"] s by auto
qed

subsection \<open>C10\<close>

text \<open>
  C10: in interpret mode (\<^verbatim>\<open>hex_mode\<close> false, \<^verbatim>\<open>interpret\<close> true) the decoder
  returns a dictionary for every non-empty chunk, the chunk is rendered from that
  dictionary and not by the hex fallback, and over any sequence of reads the loop
  raises nothing and prints no line that continues with \<^verbatim>\<open>Raw data: \<close> after its
  time stamp, nor one that begins with it.
\<close>

theorem interpret_mode_never_falls_back:
  "(data \<noteq> [] \<longrightarrow>
      (\<exists>m. decode_monome_message data = Inr (Some m) \<and>
           render_chunk False True timestamp data =
             Inr (''['' @ timestamp @ ''] '' @ (case color m of Some c \<Rightarrow> c | None \<Rightarrow> RESET)
                  @ decoded m @ RESET @ '' ['' @ raw_hex m @ '']'') \<and>
           render_chunk False True timestamp data
             \<noteq> Inr (''['' @ timestamp @ ''] Raw data: '' @ fst (format_bytes data)))) \<and>
   (\<exists>outputs. read_loop False True reads = Inr outputs \<and>
      list_all2 (\<lambda>(ts, chunk) output. \<not> prefix (''['' @ ts @ ''] Raw data: '') output)
        (filter (\<lambda>(ts, chunk). chunk \<noteq> []) reads) outputs \<and>
      (\<forall>output \<in> set outputs. \<not> prefix ''Raw data: '' output))"
proof (intro conjI impI)
  assume ne: "data \<noteq> []"
  from decode_color_escape [OF ne] obtain m c where
    m: "decode_monome_message data = Inr (Some m)"
    and c: "(case color m of Some c \<Rightarrow> c | None \<Rightarrow> RESET) = CHR 0x1B # c"
    by blast
  have "render_chunk False True timestamp data
          \<noteq> Inr (''['' @ timestamp @ ''] Raw data: '' @ fst (format_bytes data))"
    unfolding render_interpret [OF m] c by simp
  with m render_interpret [OF m]
  show "\<exists>m. decode_monome_message data = Inr (Some m) \<and>
           render_chunk False True timestamp data =
             Inr (''['' @ timestamp @ ''] '' @ (case color m of Some c \<Rightarrow> c | None \<Rightarrow> RESET)
                  @ decoded m @ RESET @ '' ['' @ raw_hex m @ '']'') \<and>
           render_chunk False True timestamp data
             \<noteq> Inr (''['' @ timestamp @ ''] Raw data: '' @ fst (format_bytes data))"
    by blast
next
  show "\<exists>outputs. read_loop False True reads = Inr outputs \<and>
      list_all2 (\<lambda>(ts, chunk) output. \<not> prefix (''['' @ ts @ ''] Raw data: '') output)
        (filter (\<lambda>(ts, chunk). chunk \<noteq> []) reads) outputs \<and>
      (\<forall>output \<in> set outputs. \<not> prefix ''Raw data: '' output)"
  proof (induction reads)
    case Nil
    show ?case by simp
  next
    case (Cons r reads)
    obtain ts chunk where r: "r = (ts, chunk)" by (cases r)
    from Cons obtain outputs where
      IH: "read_loop False True reads = Inr outputs"
        "list_all2 (\<lambda>(ts, chunk) output. \<not> prefix (''['' @ ts @ ''] Raw data: '') output)
           (filter (\<lambda>(ts, chunk). chunk \<noteq> []) reads) outputs"
        "\<forall>output \<in> set outputs. \<not> prefix ''Raw data: '' output"
      by blast
    show ?case
    proof (cases "chunk = []")
      case True
      with IH r show ?thesis by simp
    next
      case False
      from render_interpret_line [OF False, of ts] obtain line where
        out: "render_chunk False True ts chunk = Inr line"
          "\<not> prefix (''['' @ ts @ ''] Raw data: '') line"
          "\<not> prefix ''Raw data: '' line"
        by blast
      from False r out(1) IH(1)
      have "read_loop False True (r # reads) = Inr (line # outputs)"
        by (simp add: bind_exc_def)
      with False r out(2,3) IH(2,3) show ?thesis by simp
    qed
  qed
qed

theorem interpret_mode_never_falls_back_witness:
  "[0x09 :: byte] \<noteq> [] \<and>
   (\<exists>m. decode_monome_message [0x09] = Inr (Some m) \<and>
        render_chunk False True ''12:00:00.000'' [0x09]
          \<noteq> Inr (''['' @ ''12:00:00.000'' @ ''] Raw data: '' @ fst (format_bytes [0x09]))) \<and>
   (\<exists>outputs. read_loop False True [(''12:00:00.000'', [0x09]), (''12:00:00.010'', [])] = Inr outputs \<and>
      (\<forall>output \<in> set outputs. \<not> prefix ''Raw data: '' output))"
  using interpret_mode_never_falls_back
    [of "[0x09]" "''12:00:00.000''" "[(''12:00:00.000'', [0x09]), (''12:00:00.010'', [])]"]
  by blast

end
